theory Spec2Isabelle
  imports Main "HOL-Library.Word"
begin

section \<open>Layout descriptors and the metadata registry\<close>

text \<open>
  The descriptor types of \<^verbatim>\<open>native/cgocopy_metadata.h\<close>. A \<^verbatim>\<open>const char *\<close> is a
  \<open>string option\<close> (\<open>None\<close> is \<^verbatim>\<open>NULL\<close>, a string stands for the characters before the
  terminator, so \<^verbatim>\<open>strcmp(a, b) == 0\<close> is equality). A \<^verbatim>\<open>size_t\<close> that only carries a
  size, an offset or a count is a \<open>nat\<close>. A descriptor is constant data, so the
  \<^verbatim>\<open>info\<close> pointer of a node is modelled by the descriptor it points to. Registry nodes
  are mutable objects owned by the caller: they live in a store indexed by address, and a
  node pointer is an address or \<^verbatim>\<open>NULL\<close>. Every address holds a node object: a pointer
  that is not \<^verbatim>\<open>NULL\<close> is taken to point to a valid node.
\<close>

datatype cgocopy_field_kind =
    CGOCOPY_FIELD_PRIMITIVE_KIND
  | CGOCOPY_FIELD_POINTER_KIND
  | CGOCOPY_FIELD_STRING_KIND
  | CGOCOPY_FIELD_ARRAY_KIND
  | CGOCOPY_FIELD_STRUCT_KIND

record cgocopy_field_info =
  field_offset :: nat
  field_size :: nat
  field_type_name :: "string option"
  field_kind :: cgocopy_field_kind
  field_elem_type :: "string option"
  field_elem_count :: nat
  field_is_string :: bool

record cgocopy_struct_info =
  info_name :: "string option"
  info_size :: nat
  info_alignment :: nat
  info_field_count :: nat
  info_fields :: "cgocopy_field_info list"

type_synonym node_ptr = "nat option"

record cgocopy_struct_registry_node =
  node_info :: "cgocopy_struct_info option"
  node_next :: node_ptr

text \<open>
  The global state of \<^verbatim>\<open>native/metadata_registry.c\<close>: the static head pointer and the
  node objects it can reach.
\<close>

record registry_state =
  cgocopy_registry_head :: node_ptr
  node_mem :: "nat \<Rightarrow> cgocopy_struct_registry_node"

definition registry_init :: "(nat \<Rightarrow> cgocopy_struct_registry_node) \<Rightarrow> registry_state" where
  "registry_init mem = \<lparr> cgocopy_registry_head = None, node_mem = mem \<rparr>"

text \<open>
  \<^verbatim>\<open>cgocopy_registry_add\<close>: a null node returns at once; otherwise the node's
  \<^verbatim>\<open>next\<close> field is overwritten with the old head and the head is set to the node.
\<close>

definition cgocopy_registry_add :: "node_ptr \<Rightarrow> registry_state \<Rightarrow> registry_state" where
  "cgocopy_registry_add node s =
     (case node of
        None \<Rightarrow> s
      | Some p \<Rightarrow>
          s\<lparr> node_mem := (node_mem s)(p := (node_mem s p)\<lparr> node_next := cgocopy_registry_head s \<rparr>),
             cgocopy_registry_head := Some p \<rparr>)"

text \<open>
  The loop condition of \<^verbatim>\<open>cgocopy_lookup_struct_info\<close>: the node has a descriptor, the
  descriptor has a name, and the name compares equal to the query.
\<close>

definition node_matches :: "cgocopy_struct_registry_node \<Rightarrow> string \<Rightarrow> bool" where
  "node_matches nd name =
     (case node_info nd of
        None \<Rightarrow> False
      | Some info \<Rightarrow> (case info_name info of None \<Rightarrow> False | Some n \<Rightarrow> n = name))"

text \<open>
  The \<^verbatim>\<open>while (cursor != NULL)\<close> loop. Nothing bounds the walk when the \<^verbatim>\<open>next\<close>
  pointers form a cycle, so the loop is a partial function: \<open>None\<close> is a call that never
  returns, \<open>Some None\<close> is the \<^verbatim>\<open>NULL\<close> result and \<open>Some (Some d)\<close> a descriptor.
\<close>

partial_function (option) lookup_loop ::
  "(nat \<Rightarrow> cgocopy_struct_registry_node) \<Rightarrow> node_ptr \<Rightarrow> string \<Rightarrow> cgocopy_struct_info option option"
where
  "lookup_loop mem cursor name =
     (case cursor of
        None \<Rightarrow> Some None
      | Some p \<Rightarrow>
          if node_matches (mem p) name then Some (node_info (mem p))
          else lookup_loop mem (node_next (mem p)) name)"

definition cgocopy_lookup_struct_info ::
  "string option \<Rightarrow> registry_state \<Rightarrow> cgocopy_struct_info option option" where
  "cgocopy_lookup_struct_info name s =
     (case name of
        None \<Rightarrow> Some None
      | Some n \<Rightarrow> lookup_loop (node_mem s) (cgocopy_registry_head s) n)"

text \<open>The value of \<^verbatim>\<open>cursor\<close> after \<open>k\<close> executions of \<^verbatim>\<open>cursor = cursor->next\<close>.\<close>

fun cursor_after :: "(nat \<Rightarrow> cgocopy_struct_registry_node) \<Rightarrow> node_ptr \<Rightarrow> nat \<Rightarrow> node_ptr" where
  "cursor_after mem cursor 0 = cursor"
| "cursor_after mem cursor (Suc k) =
     (case cursor of None \<Rightarrow> None | Some p \<Rightarrow> cursor_after mem (node_next (mem p)) k)"

section \<open>The architecture probe\<close>

text \<open>
  \<^verbatim>\<open>native/arch_info.c\<close>. What \<^verbatim>\<open>sizeof\<close> and \<^verbatim>\<open>offsetof\<close> yield and the byte order of
  an integer in memory are facts of the build platform, so the platform is a parameter.
\<close>

datatype endianness = LittleEndian | BigEndian

datatype c_scalar_type =
    C_int8_t | C_int16_t | C_int32_t | C_int64_t
  | C_uint8_t | C_uint16_t | C_uint32_t | C_uint64_t
  | C_float | C_double | C_void_ptr | C_size_t

datatype test_member =
    M_i8 | M_i32 | M_i64 | M_i16 | M_f64 | M_i8_2 | M_ptr
  | M_u8 | M_u32 | M_u16 | M_u64 | M_f32 | M_charptr | M_sizet

record platform =
  sizeof_type :: "c_scalar_type \<Rightarrow> nat"
  offsetof_test :: "test_member \<Rightarrow> nat"
  sizeof_test_struct :: nat
  byte_order :: endianness

record ArchitectureInfo =
  int8_size :: nat
  int16_size :: nat
  int32_size :: nat
  int64_size :: nat
  uint8_size :: nat
  uint16_size :: nat
  uint32_size :: nat
  uint64_size :: nat
  float_size :: nat
  double_size :: nat
  pointer_size :: nat
  sizet_size :: nat
  int8_offset :: nat
  int16_offset :: nat
  int32_offset :: nat
  int64_offset :: nat
  uint8_offset :: nat
  uint16_offset :: nat
  uint32_offset :: nat
  uint64_offset :: nat
  float_offset :: nat
  double_offset :: nat
  pointer_offset :: nat
  charptr_offset :: nat
  sizet_offset :: nat
  test_struct_size :: nat
  is_64bit :: int
  is_little_endian :: int

text \<open>
  The object representation of a \<^verbatim>\<open>uint32_t\<close>, which the union
  \<^verbatim>\<open>{ uint32_t i; uint8_t c[4]; }\<close> exposes: \<open>endian_test_c0\<close> is \<^verbatim>\<open>test.c[0]\<close> after
  \<^verbatim>\<open>test.i = 0x01020304\<close>.
\<close>

definition uint32_bytes :: "endianness \<Rightarrow> 32 word \<Rightarrow> 8 word list" where
  "uint32_bytes e x =
     (let lsb_first = [ucast x, ucast (drop_bit 8 x), ucast (drop_bit 16 x), ucast (drop_bit 24 x)]
      in case e of LittleEndian \<Rightarrow> lsb_first | BigEndian \<Rightarrow> rev lsb_first)"

definition endian_test_c0 :: "platform \<Rightarrow> 8 word" where
  "endian_test_c0 pf = uint32_bytes (byte_order pf) 0x01020304 ! 0"

text \<open>
  \<^verbatim>\<open>getArchitectureInfo\<close> declares \<^verbatim>\<open>ArchitectureInfo info;\<close> without an initialiser and
  assigns its fields one by one; \<open>uninit\<close> is the indeterminate content the local variable
  starts with. The assignments are in the order of the source.
\<close>

definition getArchitectureInfo :: "platform \<Rightarrow> ArchitectureInfo \<Rightarrow> ArchitectureInfo" where
  "getArchitectureInfo pf uninit =
     (let info = uninit;
          info = info\<lparr> int8_size := sizeof_type pf C_int8_t \<rparr>;
          info = info\<lparr> int16_size := sizeof_type pf C_int16_t \<rparr>;
          info = info\<lparr> int32_size := sizeof_type pf C_int32_t \<rparr>;
          info = info\<lparr> int64_size := sizeof_type pf C_int64_t \<rparr>;
          info = info\<lparr> uint8_size := sizeof_type pf C_uint8_t \<rparr>;
          info = info\<lparr> uint16_size := sizeof_type pf C_uint16_t \<rparr>;
          info = info\<lparr> uint32_size := sizeof_type pf C_uint32_t \<rparr>;
          info = info\<lparr> uint64_size := sizeof_type pf C_uint64_t \<rparr>;
          info = info\<lparr> float_size := sizeof_type pf C_float \<rparr>;
          info = info\<lparr> double_size := sizeof_type pf C_double \<rparr>;
          info = info\<lparr> pointer_size := sizeof_type pf C_void_ptr \<rparr>;
          info = info\<lparr> sizet_size := sizeof_type pf C_size_t \<rparr>;
          info = info\<lparr> int8_offset := offsetof_test pf M_i8 \<rparr>;
          info = info\<lparr> int32_offset := offsetof_test pf M_i32 \<rparr>;
          info = info\<lparr> int64_offset := offsetof_test pf M_i64 \<rparr>;
          info = info\<lparr> int16_offset := offsetof_test pf M_i16 \<rparr>;
          info = info\<lparr> double_offset := offsetof_test pf M_f64 \<rparr>;
          info = info\<lparr> uint8_offset := offsetof_test pf M_u8 \<rparr>;
          info = info\<lparr> pointer_offset := offsetof_test pf M_ptr \<rparr>;
          info = info\<lparr> uint16_offset := offsetof_test pf M_u16 \<rparr>;
          info = info\<lparr> uint32_offset := offsetof_test pf M_u32 \<rparr>;
          info = info\<lparr> uint64_offset := offsetof_test pf M_u64 \<rparr>;
          info = info\<lparr> float_offset := offsetof_test pf M_f32 \<rparr>;
          info = info\<lparr> charptr_offset := offsetof_test pf M_charptr \<rparr>;
          info = info\<lparr> sizet_offset := offsetof_test pf M_sizet \<rparr>;
          info = info\<lparr> test_struct_size := sizeof_test_struct pf \<rparr>;
          info = info\<lparr> is_64bit := (if sizeof_type pf C_void_ptr = 8 then 1 else 0) \<rparr>;
          info = info\<lparr> is_little_endian := (if endian_test_c0 pf = 0x04 then 1 else 0) \<rparr>
      in info)"

text \<open>
  The function reads and writes no global; as an operation on the program state it hands
  the registry back as it found it.
\<close>

definition getArchitectureInfo_call ::
  "platform \<Rightarrow> ArchitectureInfo \<Rightarrow> registry_state \<Rightarrow> ArchitectureInfo \<times> registry_state" where
  "getArchitectureInfo_call pf uninit s = (getArchitectureInfo pf uninit, s)"

text \<open>
  \<^verbatim>\<open>calculateAlignment\<close> computes on \<^verbatim>\<open>size_t\<close>, an unsigned type whose subtraction wraps
  around; its width is the length of the word type.
\<close>

definition calculateAlignment :: "'a::len word \<Rightarrow> 'a word \<Rightarrow> 'a word" where
  "calculateAlignment prev_end current_offset =
     (if current_offset = prev_end then 1
      else (let padding = current_offset - prev_end in current_offset - prev_end))"

section \<open>The field macros\<close>

text \<open>
  A macro receives a struct type and a field name and asks the compiler for
  \<^verbatim>\<open>offsetof(struct_type, field_name)\<close> and \<^verbatim>\<open>sizeof(((struct_type *)0)->field_name)\<close>.
  The designated member is modelled by its name, its offset and its type; \<^verbatim>\<open>sizeof\<close> of an
  array type is the element count times \<^verbatim>\<open>sizeof\<close> of the element type.
\<close>

datatype c_type = Scalar nat | ArrayOf c_type nat

fun sizeof :: "c_type \<Rightarrow> nat" where
  "sizeof (Scalar n) = n"
| "sizeof (ArrayOf t n) = n * sizeof t"

record c_member =
  member_name :: string
  member_offset :: nat
  member_type :: c_type

text \<open>\<^verbatim>\<open>native/cgocopy_metadata.h\<close>: the field initialiser and the array-field macro.\<close>

definition CGOCOPY_INTERNAL_FIELD_INIT ::
  "cgocopy_field_kind \<Rightarrow> c_member \<Rightarrow> string option \<Rightarrow> string option \<Rightarrow> nat \<Rightarrow> bool
     \<Rightarrow> cgocopy_field_info" where
  "CGOCOPY_INTERNAL_FIELD_INIT kind_value m type_literal elem_literal elem_count_value string_flag =
     \<lparr> field_offset = member_offset m,
       field_size = sizeof (member_type m),
       field_type_name = type_literal,
       field_kind = kind_value,
       field_elem_type = elem_literal,
       field_elem_count = elem_count_value,
       field_is_string = string_flag \<rparr>"

definition CGOCOPY_FIELD_ARRAY :: "c_member \<Rightarrow> string \<Rightarrow> nat \<Rightarrow> cgocopy_field_info" where
  "CGOCOPY_FIELD_ARRAY m elem_type elem_count =
     CGOCOPY_INTERNAL_FIELD_INIT CGOCOPY_FIELD_ARRAY_KIND m
       (Some elem_type) (Some elem_type) elem_count False"

text \<open>
  \<^verbatim>\<open>pkg/cgocopy2/native2/cgocopy_macros.h\<close> declares a field record of its own, with flags
  instead of a kind, and derives the array length from two \<^verbatim>\<open>sizeof\<close>s.
\<close>

record cgocopy2_field_info =
  f2_name :: string
  f2_type :: string
  f2_offset :: nat
  f2_size :: nat
  f2_is_pointer :: int
  f2_is_array :: int
  f2_array_len :: nat

definition CGOCOPY_ARRAY_FIELD :: "c_member \<Rightarrow> string \<Rightarrow> c_type \<Rightarrow> cgocopy2_field_info" where
  "CGOCOPY_ARRAY_FIELD m elemtype_name elemtype =
     \<lparr> f2_name = member_name m,
       f2_type = elemtype_name @ ''[]'',
       f2_offset = member_offset m,
       f2_size = sizeof (member_type m),
       f2_is_pointer = 0,
       f2_is_array = 1,
       f2_array_len = sizeof (member_type m) div sizeof elemtype \<rparr>"


section \<open>Example data\<close>

text \<open>
  Three node objects at the addresses 10, 20 and 30. Two of them carry different
  descriptors under the same name.
\<close>

definition example_info :: "string \<Rightarrow> nat \<Rightarrow> cgocopy_struct_info" where
  "example_info n sz =
     \<lparr> info_name = Some n, info_size = sz, info_alignment = sz, info_field_count = 1,
       info_fields =
         [\<lparr> field_offset = 0, field_size = sz, field_type_name = Some ''int'',
            field_kind = CGOCOPY_FIELD_PRIMITIVE_KIND, field_elem_type = None,
            field_elem_count = 0, field_is_string = False \<rparr>] \<rparr>"

definition example_nodes :: "nat \<Rightarrow> cgocopy_struct_registry_node" where
  "example_nodes i =
     \<lparr> node_info =
         (if i = 10 then Some (example_info ''User'' 4)
          else if i = 20 then Some (example_info ''Point'' 8)
          else if i = 30 then Some (example_info ''User'' 8)
          else None),
       node_next = None \<rparr>"

definition registry_two :: registry_state where
  "registry_two =
     cgocopy_registry_add (Some 20) (cgocopy_registry_add (Some 10) (registry_init example_nodes))"

text \<open>The same node handed to \<^verbatim>\<open>cgocopy_registry_add\<close> twice in a row.\<close>

definition registry_self_loop :: registry_state where
  "registry_self_loop =
     cgocopy_registry_add (Some 10) (cgocopy_registry_add (Some 10) (registry_init example_nodes))"

text \<open>The head node of \<open>registry_two\<close> handed to \<^verbatim>\<open>cgocopy_registry_add\<close> once more.\<close>

definition registry_relinked :: registry_state where
  "registry_relinked = cgocopy_registry_add (Some 20) registry_two"

text \<open>
  The member \<^verbatim>\<open>int grades[5]\<close> of \<^verbatim>\<open>Student\<close>
  (\<^verbatim>\<open>pkg/cgocopy2/integration/native/structs.c\<close>) where \<^verbatim>\<open>int\<close> has four bytes and a
  pointer eight.
\<close>

definition Student_grades :: c_member where
  "Student_grades =
     \<lparr> member_name = ''grades'', member_offset = 16, member_type = ArrayOf (Scalar 4) 5 \<rparr>"


section \<open>Walking the node chain\<close>

lemma cursor_after_None [simp]: "cursor_after mem None k = None"
  by (cases k) simp_all

lemma lookup_loop_found:
  "cursor_after mem c k = Some p \<Longrightarrow> node_matches (mem p) name \<Longrightarrow>
   (\<forall>j<k. \<forall>q. cursor_after mem c j = Some q \<longrightarrow> \<not> node_matches (mem q) name) \<Longrightarrow>
   lookup_loop mem c name = Some (node_info (mem p))"
proof (induction k arbitrary: c)
  case 0
  then show ?case by (simp add: lookup_loop.simps)
next
  case (Suc k)
  from Suc.prems(1) obtain q where c: "c = Some q"
    by (cases c) simp_all
  from Suc.prems(3) c have nm: "\<not> node_matches (mem q) name"
    by (metis cursor_after.simps(1) zero_less_Suc)
  have step: "cursor_after mem (node_next (mem q)) k = Some p"
    using Suc.prems(1) c by simp
  have rest: "\<forall>j<k. \<forall>r. cursor_after mem (node_next (mem q)) j = Some r \<longrightarrow> \<not> node_matches (mem r) name"
  proof (intro allI impI)
    fix j r assume "j < k" and "cursor_after mem (node_next (mem q)) j = Some r"
    then have "Suc j < Suc k" and "cursor_after mem c (Suc j) = Some r"
      using c by simp_all
    with Suc.prems(3) show "\<not> node_matches (mem r) name" by blast
  qed
  have "lookup_loop mem c name = lookup_loop mem (node_next (mem q)) name"
    using c nm by (subst lookup_loop.simps) simp
  also have "\<dots> = Some (node_info (mem p))"
    by (rule Suc.IH [OF step Suc.prems(2) rest])
  finally show ?case .
qed

lemma lookup_loop_not_found:
  "cursor_after mem c k = None \<Longrightarrow>
   (\<forall>j<k. \<forall>q. cursor_after mem c j = Some q \<longrightarrow> \<not> node_matches (mem q) name) \<Longrightarrow>
   lookup_loop mem c name = Some None"
proof (induction k arbitrary: c)
  case 0
  then show ?case by (simp add: lookup_loop.simps)
next
  case (Suc k)
  show ?case
  proof (cases c)
    case None
    then show ?thesis by (simp add: lookup_loop.simps)
  next
    case (Some q)
    from Suc.prems(2) Some have nm: "\<not> node_matches (mem q) name"
      by (metis cursor_after.simps(1) zero_less_Suc)
    have step: "cursor_after mem (node_next (mem q)) k = None"
      using Suc.prems(1) Some by simp
    have rest: "\<forall>j<k. \<forall>r. cursor_after mem (node_next (mem q)) j = Some r \<longrightarrow> \<not> node_matches (mem r) name"
    proof (intro allI impI)
      fix j r assume "j < k" and "cursor_after mem (node_next (mem q)) j = Some r"
      then have "Suc j < Suc k" and "cursor_after mem c (Suc j) = Some r"
        using Some by simp_all
      with Suc.prems(2) show "\<not> node_matches (mem r) name" by blast
    qed
    have "lookup_loop mem c name = lookup_loop mem (node_next (mem q)) name"
      using Some nm by (subst lookup_loop.simps) simp
    also have "\<dots> = Some None"
      by (rule Suc.IH [OF step rest])
    finally show ?thesis .
  qed
qed

lemma lookup_loop_returns_imp:
  "lookup_loop mem c name = Some y \<Longrightarrow>
   \<exists>k. cursor_after mem c k = None \<or> (\<exists>q. cursor_after mem c k = Some q \<and> node_matches (mem q) name)"
proof (induct rule: lookup_loop.raw_induct [rotated 1, consumes 1])
  case (1 f mem c name y)
  show ?case
  proof (cases c)
    case None
    then have "cursor_after mem c 0 = None" by simp
    then show ?thesis by blast
  next
    case (Some p)
    show ?thesis
    proof (cases "node_matches (mem p) name")
      case True
      with Some have "cursor_after mem c 0 = Some p \<and> node_matches (mem p) name" by simp
      then show ?thesis by blast
    next
      case False
      with Some "1"(2) have "f mem (node_next (mem p)) name = Some y" by simp
      from "1"(1) [OF this] obtain k where
        "cursor_after mem (node_next (mem p)) k = None \<or>
         (\<exists>q. cursor_after mem (node_next (mem p)) k = Some q \<and> node_matches (mem q) name)" ..
      then have "cursor_after mem c (Suc k) = None \<or>
         (\<exists>q. cursor_after mem c (Suc k) = Some q \<and> node_matches (mem q) name)"
        using Some by simp
      then show ?thesis by blast
    qed
  qed
qed

lemma lookup_loop_diverges:
  assumes "\<forall>k. \<exists>q. cursor_after mem c k = Some q \<and> \<not> node_matches (mem q) name"
  shows "lookup_loop mem c name = None"
proof (rule ccontr)
  assume "lookup_loop mem c name \<noteq> None"
  then obtain y where "lookup_loop mem c name = Some y" by blast
  from lookup_loop_returns_imp [OF this] assms show False
    by (metis option.distinct(1) option.inject)
qed

lemma node_matches_info:
  "node_info a = node_info b \<Longrightarrow> node_matches a name = node_matches b name"
  by (simp add: node_matches_def)

lemma node_matches_name:
  "node_matches nd name \<Longrightarrow> \<exists>d. node_info nd = Some d \<and> info_name d = Some name"
  by (auto simp: node_matches_def split: option.splits)

lemma cursor_after_update_unreachable:
  "(\<forall>k. cursor_after mem c k \<noteq> Some p) \<Longrightarrow>
   cursor_after (mem(p := v)) c k = cursor_after mem c k"
proof (induction k arbitrary: c)
  case 0
  then show ?case by simp
next
  case (Suc k)
  show ?case
  proof (cases c)
    case None
    then show ?thesis by simp
  next
    case (Some q)
    from Suc.prems Some have "cursor_after mem (Some q) 0 \<noteq> Some p" by blast
    then have qp: "q \<noteq> p" by simp
    have "\<forall>j. cursor_after mem (node_next (mem q)) j \<noteq> Some p"
    proof
      fix j
      from Suc.prems Some have "cursor_after mem (Some q) (Suc j) \<noteq> Some p" by blast
      then show "cursor_after mem (node_next (mem q)) j \<noteq> Some p" by simp
    qed
    from Suc.IH [OF this] Some qp show ?thesis by simp
  qed
qed

lemma first_stop:
  assumes "\<exists>k. cursor_after mem c k = None \<or> (\<exists>q. cursor_after mem c k = Some q \<and> node_matches (mem q) name)"
  obtains k where
    "cursor_after mem c k = None \<or> (\<exists>q. cursor_after mem c k = Some q \<and> node_matches (mem q) name)"
    "\<forall>j<k. \<forall>q. cursor_after mem c j = Some q \<longrightarrow> \<not> node_matches (mem q) name"
proof -
  define P where "P k \<longleftrightarrow> cursor_after mem c k = None \<or>
      (\<exists>q. cursor_after mem c k = Some q \<and> node_matches (mem q) name)" for k
  from assms have ex: "\<exists>k. P k" by (simp add: P_def)
  define k0 where "k0 = (LEAST k. P k)"
  have a: "P k0" unfolding k0_def using ex by (rule LeastI_ex)
  have b: "\<not> P j" if "j < k0" for j
    using that unfolding k0_def by (rule not_less_Least)
  have "\<forall>j<k0. \<forall>q. cursor_after mem c j = Some q \<longrightarrow> \<not> node_matches (mem q) name"
    using b by (auto simp: P_def)
  with a that show thesis by (simp add: P_def)
qed

lemma lookup_loop_agree:
  assumes walk: "\<And>k. cursor_after mem' c k = cursor_after mem c k"
      and same: "\<And>k q. cursor_after mem c k = Some q \<Longrightarrow> node_info (mem' q) = node_info (mem q)"
  shows "lookup_loop mem' c name = lookup_loop mem c name"
proof (cases "\<exists>k. cursor_after mem c k = None \<or>
                 (\<exists>q. cursor_after mem c k = Some q \<and> node_matches (mem q) name)")
  case True
  then obtain k where
    stop: "cursor_after mem c k = None \<or> (\<exists>q. cursor_after mem c k = Some q \<and> node_matches (mem q) name)"
    and before: "\<forall>j<k. \<forall>q. cursor_after mem c j = Some q \<longrightarrow> \<not> node_matches (mem q) name"
    by (rule first_stop)
  have before': "\<forall>j<k. \<forall>q. cursor_after mem' c j = Some q \<longrightarrow> \<not> node_matches (mem' q) name"
    using before walk same node_matches_info by metis
  from stop show ?thesis
  proof
    assume n: "cursor_after mem c k = None"
    then have "cursor_after mem' c k = None" by (simp add: walk)
    then have "lookup_loop mem' c name = Some None"
      using before' by (rule lookup_loop_not_found)
    moreover have "lookup_loop mem c name = Some None"
      using n before by (rule lookup_loop_not_found)
    ultimately show ?thesis by simp
  next
    assume "\<exists>q. cursor_after mem c k = Some q \<and> node_matches (mem q) name"
    then obtain q where q: "cursor_after mem c k = Some q" and m: "node_matches (mem q) name"
      by blast
    have i: "node_info (mem' q) = node_info (mem q)" using q by (rule same)
    have q': "cursor_after mem' c k = Some q" using q by (simp add: walk)
    have m': "node_matches (mem' q) name" using m node_matches_info [OF i] by simp
    have "lookup_loop mem' c name = Some (node_info (mem' q))"
      using q' m' before' by (rule lookup_loop_found)
    moreover have "lookup_loop mem c name = Some (node_info (mem q))"
      using q m before by (rule lookup_loop_found)
    ultimately show ?thesis using i by simp
  qed
next
  case False
  then have d: "\<forall>k. \<exists>q. cursor_after mem c k = Some q \<and> \<not> node_matches (mem q) name"
    by (metis option.exhaust)
  have d': "\<forall>k. \<exists>q. cursor_after mem' c k = Some q \<and> \<not> node_matches (mem' q) name"
  proof
    fix k
    from d obtain q where q: "cursor_after mem c k = Some q" and m: "\<not> node_matches (mem q) name"
      by blast
    have i: "node_info (mem' q) = node_info (mem q)" using q by (rule same)
    show "\<exists>q. cursor_after mem' c k = Some q \<and> \<not> node_matches (mem' q) name"
      using q m node_matches_info [OF i] by (auto simp: walk)
  qed
  show ?thesis
    by (simp add: lookup_loop_diverges [OF d] lookup_loop_diverges [OF d'])
qed

lemma first_match:
  assumes "cursor_after mem c k = Some p" and "node_matches (mem p) name"
  obtains k0 q where
    "cursor_after mem c k0 = Some q" "node_matches (mem q) name"
    "\<forall>j<k0. \<forall>r. cursor_after mem c j = Some r \<longrightarrow> \<not> node_matches (mem r) name"
proof -
  define P where "P k \<longleftrightarrow> (\<exists>q. cursor_after mem c k = Some q \<and> node_matches (mem q) name)" for k
  from assms have ex: "\<exists>k. P k" by (auto simp: P_def)
  define k0 where "k0 = (LEAST k. P k)"
  have a: "P k0" unfolding k0_def using ex by (rule LeastI_ex)
  have b: "\<not> P j" if "j < k0" for j
    using that unfolding k0_def by (rule not_less_Least)
  have "\<forall>j<k0. \<forall>r. cursor_after mem c j = Some r \<longrightarrow> \<not> node_matches (mem r) name"
    using b by (auto simp: P_def)
  with a that show thesis by (auto simp: P_def)
qed

lemma cursor_after_add:
  "cursor_after mem c (k + j) = cursor_after mem (cursor_after mem c k) j"
  by (induction k arbitrary: c) (simp_all split: option.splits)

text \<open>
  A chain that ends in \<^verbatim>\<open>NULL\<close> still does so after a node that is not on it has been
  added: registering each node once never builds a cycle.
\<close>

lemma registry_add_chain_ends:
  assumes "cursor_after (node_mem s) (cgocopy_registry_head s) k = None"
      and "\<forall>j. cursor_after (node_mem s) (cgocopy_registry_head s) j \<noteq> Some p"
  shows "cursor_after (node_mem (cgocopy_registry_add (Some p) s))
           (cgocopy_registry_head (cgocopy_registry_add (Some p) s)) (Suc k) = None"
  using assms
  by (simp add: cgocopy_registry_add_def cursor_after_update_unreachable)


section \<open>Facts about the example data\<close>

lemma add_simps:
  "cgocopy_registry_head (cgocopy_registry_add (Some p) s) = Some p"
  "node_mem (cgocopy_registry_add (Some p) s) =
     (node_mem s)(p := (node_mem s p)\<lparr> node_next := cgocopy_registry_head s \<rparr>)"
  "cgocopy_registry_add None s = s"
  by (simp_all add: cgocopy_registry_add_def)

lemma registry_two_simps:
  "cgocopy_registry_head registry_two = Some 20"
  "node_mem registry_two 20 = \<lparr> node_info = Some (example_info ''Point'' 8), node_next = Some 10 \<rparr>"
  "node_mem registry_two 10 = \<lparr> node_info = Some (example_info ''User'' 4), node_next = None \<rparr>"
  "node_mem registry_two 30 = \<lparr> node_info = Some (example_info ''User'' 8), node_next = None \<rparr>"
  by (simp_all add: registry_two_def registry_init_def add_simps example_nodes_def)

lemma registry_self_loop_simps:
  "cgocopy_registry_head registry_self_loop = Some 10"
  "node_mem registry_self_loop 10 = \<lparr> node_info = Some (example_info ''User'' 4), node_next = Some 10 \<rparr>"
  by (simp_all add: registry_self_loop_def registry_init_def add_simps example_nodes_def)

lemma registry_self_loop_cursor:
  "cursor_after (node_mem registry_self_loop) (Some 10) k = Some 10"
  by (induction k) (simp_all add: registry_self_loop_simps)

lemma registry_two_unlinked_30:
  "cursor_after (node_mem registry_two) (cgocopy_registry_head registry_two) k \<noteq> Some 30"
proof (cases "k < 2")
  case True
  then have "k = 0 \<or> k = 1" by auto
  then show ?thesis by (auto simp: registry_two_simps)
next
  case False
  then obtain j where "k = 2 + j" by (metis le_add_diff_inverse not_less)
  then show ?thesis
    by (simp add: cursor_after_add registry_two_simps numeral_2_eq_2)
qed

lemma registry_relinked_simps:
  "cgocopy_registry_head registry_relinked = Some 20"
  "node_mem registry_relinked 20 = \<lparr> node_info = Some (example_info ''Point'' 8), node_next = Some 20 \<rparr>"
  by (simp_all add: registry_relinked_def add_simps registry_two_simps)

lemma registry_relinked_cursor:
  "cursor_after (node_mem registry_relinked) (Some 20) k = Some 20"
  by (induction k) (simp_all add: registry_relinked_simps)

lemma four_neq_one_word: "(4 :: 'a::len word) \<noteq> 1"
proof
  assume "(4 :: 'a word) = 1"
  then have "even (1 :: 'a word)" by (metis even_numeral)
  then show False by simp
qed



section \<open>The registry\<close>

text \<open>
  C1. In every registry state, if the chain from the head holds a node whose descriptor's
  name equals the queried name, then looking that name up returns a descriptor, and the
  name of the returned descriptor is the queried name.
\<close>

theorem lookup_registered_name:
  assumes "cursor_after (node_mem s) (cgocopy_registry_head s) k = Some p"
      and "node_matches (node_mem s p) name"
  shows "\<exists>d. cgocopy_lookup_struct_info (Some name) s = Some (Some d) \<and> info_name d = Some name"
proof -
  from assms obtain k0 q where
    q: "cursor_after (node_mem s) (cgocopy_registry_head s) k0 = Some q"
    and m: "node_matches (node_mem s q) name"
    and before: "\<forall>j<k0. \<forall>r. cursor_after (node_mem s) (cgocopy_registry_head s) j = Some r \<longrightarrow>
           \<not> node_matches (node_mem s r) name"
    by (rule first_match)
  have "lookup_loop (node_mem s) (cgocopy_registry_head s) name = Some (node_info (node_mem s q))"
    using q m before by (rule lookup_loop_found)
  moreover from m obtain d where "node_info (node_mem s q) = Some d" and "info_name d = Some name"
    using node_matches_name by blast
  ultimately show ?thesis
    by (simp add: cgocopy_lookup_struct_info_def)
qed

theorem lookup_registered_name_witness:
  "cursor_after (node_mem registry_two) (cgocopy_registry_head registry_two) 1 = Some 10 \<and>
   node_matches (node_mem registry_two 10) ''User'' \<and>
   (\<exists>d. cgocopy_lookup_struct_info (Some ''User'') registry_two = Some (Some d) \<and>
        info_name d = Some ''User'')"
proof -
  have h1: "cursor_after (node_mem registry_two) (cgocopy_registry_head registry_two) 1 = Some 10"
    by (simp add: registry_two_simps)
  have h2: "node_matches (node_mem registry_two 10) ''User''"
    by (simp add: registry_two_simps node_matches_def example_info_def)
  from h1 h2 lookup_registered_name [OF h1 h2] show ?thesis by blast
qed

text \<open>
  C3. Registration puts the node at the head and links the old head behind it. Whatever
  was registered before, also under the same name, looking up the name of the node's
  descriptor right after the call returns that node's descriptor.
\<close>

theorem registry_add_newest_first:
  assumes "node_info (node_mem s p) = Some d" and "info_name d = Some n"
  shows "cgocopy_registry_head (cgocopy_registry_add (Some p) s) = Some p \<and>
         node_next (node_mem (cgocopy_registry_add (Some p) s) p) = cgocopy_registry_head s \<and>
         cgocopy_lookup_struct_info (Some n) (cgocopy_registry_add (Some p) s) = Some (Some d)"
  using assms
  by (simp add: add_simps cgocopy_lookup_struct_info_def lookup_loop.simps node_matches_def)

theorem registry_add_newest_first_witness:
  "cgocopy_lookup_struct_info (Some ''User'') registry_two = Some (Some (example_info ''User'' 4)) \<and>
   node_info (node_mem registry_two 30) = Some (example_info ''User'' 8) \<and>
   info_name (example_info ''User'' 8) = Some ''User'' \<and>
   cgocopy_lookup_struct_info (Some ''User'') (cgocopy_registry_add (Some 30) registry_two)
     = Some (Some (example_info ''User'' 8)) \<and>
   example_info ''User'' 8 \<noteq> example_info ''User'' 4"
proof -
  have old: "cgocopy_lookup_struct_info (Some ''User'') registry_two
               = Some (Some (example_info ''User'' 4))"
    by (simp add: cgocopy_lookup_struct_info_def lookup_loop.simps registry_two_simps
        node_matches_def example_info_def)
  have h1: "node_info (node_mem registry_two 30) = Some (example_info ''User'' 8)"
    by (simp add: registry_two_def registry_init_def add_simps example_nodes_def)
  have h2: "info_name (example_info ''User'' 8) = Some ''User''"
    by (simp add: example_info_def)
  have ne: "example_info ''User'' 8 \<noteq> example_info ''User'' 4"
    by (simp add: example_info_def)
  from old h1 h2 ne registry_add_newest_first [OF h1 h2] show ?thesis by simp
qed

text \<open>
  C4, as the claim states it for every registry state, fails in a state that
  \<^verbatim>\<open>cgocopy_registry_add\<close> reaches: after the same node is added twice its
  \<^verbatim>\<open>next\<close> pointer refers to itself, and the lookup of a name no node carries walks the
  cycle without ever returning.
\<close>

theorem lookup_unregistered_self_loop_never_returns:
  "registry_self_loop =
     cgocopy_registry_add (Some 10) (cgocopy_registry_add (Some 10) (registry_init example_nodes)) \<and>
   cgocopy_lookup_struct_info (Some ''DoesNotExist'') registry_self_loop = None \<and>
   cgocopy_lookup_struct_info (Some ''DoesNotExist'') registry_self_loop \<noteq> Some None"
proof -
  have "\<forall>k. \<exists>q. cursor_after (node_mem registry_self_loop) (Some 10) k = Some q \<and>
          \<not> node_matches (node_mem registry_self_loop q) ''DoesNotExist''"
    by (simp add: registry_self_loop_cursor registry_self_loop_simps node_matches_def example_info_def)
  then have "lookup_loop (node_mem registry_self_loop) (Some 10) ''DoesNotExist'' = None"
    by (rule lookup_loop_diverges)
  then show ?thesis
    by (simp add: cgocopy_lookup_struct_info_def registry_self_loop_simps registry_self_loop_def [symmetric])
qed

text \<open>
  C4, amended. In every registry state whose chain from the head reaches \<^verbatim>\<open>NULL\<close> after
  \<open>k\<close> steps, the lookup of a name that none of the nodes on the chain carries returns
  \<^verbatim>\<open>NULL\<close>; the lookup with a null name returns \<^verbatim>\<open>NULL\<close> in every state.
\<close>

theorem lookup_unregistered_not_found:
  "cgocopy_lookup_struct_info None s = Some None \<and>
   (cursor_after (node_mem s) (cgocopy_registry_head s) k = None \<and>
    (\<forall>j<k. \<forall>q. cursor_after (node_mem s) (cgocopy_registry_head s) j = Some q \<longrightarrow>
             \<not> node_matches (node_mem s q) name)
    \<longrightarrow> cgocopy_lookup_struct_info (Some name) s = Some None)"
proof (intro conjI impI)
  show "cgocopy_lookup_struct_info None s = Some None"
    by (simp add: cgocopy_lookup_struct_info_def)
next
  assume h: "cursor_after (node_mem s) (cgocopy_registry_head s) k = None \<and>
    (\<forall>j<k. \<forall>q. cursor_after (node_mem s) (cgocopy_registry_head s) j = Some q \<longrightarrow>
             \<not> node_matches (node_mem s q) name)"
  then have "lookup_loop (node_mem s) (cgocopy_registry_head s) name = Some None"
    using lookup_loop_not_found by blast
  then show "cgocopy_lookup_struct_info (Some name) s = Some None"
    by (simp add: cgocopy_lookup_struct_info_def)
qed

theorem lookup_unregistered_not_found_witness:
  "cursor_after (node_mem registry_two) (cgocopy_registry_head registry_two) 2 = None \<and>
   cgocopy_lookup_struct_info (Some ''DoesNotExist'') registry_two = Some None \<and>
   cgocopy_lookup_struct_info None registry_two = Some None"
proof -
  have h1: "cursor_after (node_mem registry_two) (cgocopy_registry_head registry_two) 2 = None"
    by (simp add: registry_two_simps numeral_2_eq_2)
  have h2: "\<forall>j<2. \<forall>q. cursor_after (node_mem registry_two) (cgocopy_registry_head registry_two) j = Some q \<longrightarrow>
                 \<not> node_matches (node_mem registry_two q) ''DoesNotExist''"
    by (simp add: registry_two_simps numeral_2_eq_2 less_Suc_eq node_matches_def example_info_def)
  from h1 h2 lookup_unregistered_not_found [of registry_two 2 "''DoesNotExist''"]
  show ?thesis by blast
qed

text \<open>
  C5. Adding a null node returns the registry state unchanged, so every lookup gives
  what it gave before.
\<close>

theorem registry_add_null_noop:
  "cgocopy_registry_add None s = s \<and>
   cgocopy_lookup_struct_info name (cgocopy_registry_add None s) = cgocopy_lookup_struct_info name s"
  by (simp add: cgocopy_registry_add_def)

text \<open>
  C10, as the claim states it for every state and every node, fails when the node is
  already linked: adding the head node of a two-node registry again turns its
  \<^verbatim>\<open>next\<close> pointer on itself, the node behind it is cut off, and the lookup of that
  node's name, which returned its descriptor before the call, no longer returns.
\<close>

theorem registry_add_relink_loses_lookup:
  "node_info (node_mem registry_two 20) = Some (example_info ''Point'' 8) \<and>
   info_name (example_info ''Point'' 8) = Some ''Point'' \<and> ''User'' \<noteq> ''Point'' \<and>
   cgocopy_lookup_struct_info (Some ''User'') registry_two = Some (Some (example_info ''User'' 4)) \<and>
   cgocopy_lookup_struct_info (Some ''User'') (cgocopy_registry_add (Some 20) registry_two) = None"
proof -
  have a: "cgocopy_lookup_struct_info (Some ''User'') registry_two
             = Some (Some (example_info ''User'' 4))"
    by (simp add: cgocopy_lookup_struct_info_def lookup_loop.simps registry_two_simps
        node_matches_def example_info_def)
  have "\<forall>k. \<exists>q. cursor_after (node_mem registry_relinked) (Some 20) k = Some q \<and>
          \<not> node_matches (node_mem registry_relinked q) ''User''"
    by (simp add: registry_relinked_cursor registry_relinked_simps node_matches_def example_info_def)
  then have "lookup_loop (node_mem registry_relinked) (Some 20) ''User'' = None"
    by (rule lookup_loop_diverges)
  then have b: "cgocopy_lookup_struct_info (Some ''User'')
                  (cgocopy_registry_add (Some 20) registry_two) = None"
    by (simp add: cgocopy_lookup_struct_info_def registry_relinked_simps
        registry_relinked_def [symmetric])
  show ?thesis using a b by (simp add: registry_two_simps example_info_def)
qed

text \<open>
  C10, amended. When the node handed to \<^verbatim>\<open>cgocopy_registry_add\<close> is not yet on the chain
  from the head and its descriptor is named \<open>n\<close>, the lookup of every other name gives
  after the call exactly what it gave before, a call that does not return included.
\<close>

theorem registry_add_frame:
  assumes fresh: "\<forall>k. cursor_after (node_mem s) (cgocopy_registry_head s) k \<noteq> Some p"
      and info: "node_info (node_mem s p) = Some d" "info_name d = Some n"
      and other: "name \<noteq> n"
  shows "cgocopy_lookup_struct_info (Some name) (cgocopy_registry_add (Some p) s)
           = cgocopy_lookup_struct_info (Some name) s"
proof -
  let ?mem = "node_mem s" and ?h = "cgocopy_registry_head s"
  let ?mem' = "(?mem)(p := (?mem p)\<lparr> node_next := ?h \<rparr>)"
  have nm: "\<not> node_matches (?mem' p) name"
    using info other by (simp add: node_matches_def)
  have walk: "\<And>k. cursor_after ?mem' ?h k = cursor_after ?mem ?h k"
    using fresh by (rule cursor_after_update_unreachable)
  have same: "\<And>k q. cursor_after ?mem ?h k = Some q \<Longrightarrow> node_info (?mem' q) = node_info (?mem q)"
    by simp
  have "lookup_loop ?mem' (Some p) name = lookup_loop ?mem' ?h name"
    using nm by (subst lookup_loop.simps) simp
  also have "\<dots> = lookup_loop ?mem ?h name"
    using walk same by (rule lookup_loop_agree)
  finally show ?thesis
    by (simp add: cgocopy_lookup_struct_info_def add_simps)
qed

theorem registry_add_frame_witness:
  "(\<forall>k. cursor_after (node_mem registry_two) (cgocopy_registry_head registry_two) k \<noteq> Some 30) \<and>
   node_info (node_mem registry_two 30) = Some (example_info ''User'' 8) \<and>
   info_name (example_info ''User'' 8) = Some ''User'' \<and> ''Point'' \<noteq> ''User'' \<and>
   cgocopy_lookup_struct_info (Some ''Point'') (cgocopy_registry_add (Some 30) registry_two)
     = cgocopy_lookup_struct_info (Some ''Point'') registry_two \<and>
   cgocopy_lookup_struct_info (Some ''Point'') registry_two = Some (Some (example_info ''Point'' 8))"
proof -
  have h0: "\<forall>k. cursor_after (node_mem registry_two) (cgocopy_registry_head registry_two) k \<noteq> Some 30"
    by (simp add: registry_two_unlinked_30)
  have h1: "node_info (node_mem registry_two 30) = Some (example_info ''User'' 8)"
    by (simp add: registry_two_simps)
  have h2: "info_name (example_info ''User'' 8) = Some ''User''"
    by (simp add: example_info_def)
  have h3: "''Point'' \<noteq> ''User''" by simp
  have v: "cgocopy_lookup_struct_info (Some ''Point'') registry_two
             = Some (Some (example_info ''Point'' 8))"
    by (simp add: cgocopy_lookup_struct_info_def lookup_loop.simps registry_two_simps
        node_matches_def example_info_def)
  from h0 h1 h2 h3 v registry_add_frame [OF h0 h1 h2 h3] show ?thesis by simp
qed


section \<open>The probe and the alignment helper\<close>

text \<open>
  C6. The first byte in memory of the pattern 0x01020304 is 0x04 on a little-endian
  platform and 0x01 on a big-endian one; \<open>is_little_endian\<close> is 1 exactly when that byte
  is 0x04, hence 1 on the former and 0 on the latter.
\<close>

theorem endianness_detection:
  "endian_test_c0 pf = (case byte_order pf of LittleEndian \<Rightarrow> 0x04 | BigEndian \<Rightarrow> 0x01) \<and>
   is_little_endian (getArchitectureInfo pf uninit) = (if endian_test_c0 pf = 0x04 then 1 else 0) \<and>
   is_little_endian (getArchitectureInfo pf uninit)
     = (case byte_order pf of LittleEndian \<Rightarrow> 1 | BigEndian \<Rightarrow> 0)"
  by (cases "byte_order pf")
    (simp_all add: endian_test_c0_def uint32_bytes_def getArchitectureInfo_def Let_def)

text \<open>
  C7. \<^verbatim>\<open>calculateAlignment\<close> returns 1 when the offset equals the preceding end and the
  \<^verbatim>\<open>size_t\<close> difference otherwise; for measured offsets, where the preceding end is not
  beyond the offset, that difference is the gap in bytes. For a preceding end of 1 and an
  offset of 4 the result is 3.
\<close>

theorem calculateAlignment_reports_gap:
  fixes prev_end current_offset :: "'a::len word"
  assumes "prev_end \<le> current_offset"
  shows "calculateAlignment prev_end current_offset
           = (if current_offset = prev_end then 1 else current_offset - prev_end) \<and>
         unat (calculateAlignment prev_end current_offset)
           = (if current_offset = prev_end then 1 else unat current_offset - unat prev_end) \<and>
         calculateAlignment (1 :: 'a word) 4 = 3"
  using assms four_neq_one_word [where 'a = 'a]
  by (simp add: calculateAlignment_def unat_sub)

theorem calculateAlignment_reports_gap_witness:
  "(1 :: 64 word) \<le> 4 \<and> unat (calculateAlignment (1 :: 64 word) 4) = 3 \<and>
   calculateAlignment (1 :: 64 word) 4 = 3"
proof -
  have h: "(1 :: 64 word) \<le> 4" by simp
  from h calculateAlignment_reports_gap [OF h] show ?thesis by simp
qed

text \<open>
  C9. The probe has no failing result, its snapshot does not depend on what the
  uninitialised local variable held, so two calls on one platform return equal snapshots,
  and the registry state after the call is the state before it.
\<close>

theorem getArchitectureInfo_pure:
  "getArchitectureInfo pf uninit1 = getArchitectureInfo pf uninit2 \<and>
   snd (getArchitectureInfo_call pf uninit1 s) = s \<and>
   fst (getArchitectureInfo_call pf uninit1 s) = fst (getArchitectureInfo_call pf uninit2 s')"
proof -
  have "getArchitectureInfo pf uninit1 = getArchitectureInfo pf uninit2"
    by (cases uninit1, cases uninit2) (simp add: getArchitectureInfo_def Let_def)
  then show ?thesis by (simp add: getArchitectureInfo_call_def)
qed


section \<open>Array fields\<close>

text \<open>
  C8. For a member that is an array of 5 elements, \<^verbatim>\<open>CGOCOPY_FIELD_ARRAY\<close> called with the
  count 5 yields the array kind, the element count 5 and a size of 5 element sizes, and
  \<^verbatim>\<open>CGOCOPY_ARRAY_FIELD\<close> yields the array flag, the array length 5 and the same size.
\<close>

theorem array_field_descriptor:
  assumes "member_type m = ArrayOf elem 5" and "0 < sizeof elem"
  shows "field_kind (CGOCOPY_FIELD_ARRAY m elem_name 5) = CGOCOPY_FIELD_ARRAY_KIND \<and>
         field_elem_count (CGOCOPY_FIELD_ARRAY m elem_name 5) = 5 \<and>
         field_size (CGOCOPY_FIELD_ARRAY m elem_name 5) = 5 * sizeof elem \<and>
         f2_is_array (CGOCOPY_ARRAY_FIELD m elem_name elem) = 1 \<and>
         f2_array_len (CGOCOPY_ARRAY_FIELD m elem_name elem) = 5 \<and>
         f2_size (CGOCOPY_ARRAY_FIELD m elem_name elem) = 5 * sizeof elem"
  using assms
  by (simp add: CGOCOPY_FIELD_ARRAY_def CGOCOPY_INTERNAL_FIELD_INIT_def CGOCOPY_ARRAY_FIELD_def)

theorem array_field_descriptor_witness:
  "member_type Student_grades = ArrayOf (Scalar 4) 5 \<and> 0 < sizeof (Scalar 4) \<and>
   field_kind (CGOCOPY_FIELD_ARRAY Student_grades ''int'' 5) = CGOCOPY_FIELD_ARRAY_KIND \<and>
   field_elem_count (CGOCOPY_FIELD_ARRAY Student_grades ''int'' 5) = 5 \<and>
   field_size (CGOCOPY_FIELD_ARRAY Student_grades ''int'' 5) = 20 \<and>
   f2_is_array (CGOCOPY_ARRAY_FIELD Student_grades ''int'' (Scalar 4)) = 1 \<and>
   f2_array_len (CGOCOPY_ARRAY_FIELD Student_grades ''int'' (Scalar 4)) = 5 \<and>
   f2_size (CGOCOPY_ARRAY_FIELD Student_grades ''int'' (Scalar 4)) = 20"
proof -
  have h1: "member_type Student_grades = ArrayOf (Scalar 4) 5"
    by (simp add: Student_grades_def)
  have h2: "0 < sizeof (Scalar 4)" by simp
  from h1 h2 array_field_descriptor [OF h1 h2, of "''int''"] show ?thesis by simp
qed

end
